theory Spec2Isabelle
  imports Main "HOL-Library.Word"
begin

section \<open>The point-cloud map of PLVS (include/PointCloudMap.h)\<close>

text \<open>
  The class template \<open>PointCloudMap<PointT>\<close> keeps two clouds behind shared pointers
  (\<open>pPointCloud_\<close>, \<open>pPointCloudUnstable_\<close>), a handful of configuration fields and a
  recursive timed mutex. The header defines the getters and the setters inline; these are
  embedded below, line by line. Member names lose their trailing underscore, which an
  Isabelle name cannot end with.
\<close>

subsection \<open>Clouds and the store they live in\<close>

text \<open>
  A \<open>pcl::PointCloud<PointT>\<close> is kept with the two parts the header touches: the stamp of
  its header (\<open>header.stamp\<close>, a \<open>pcl::uint64_t\<close>) and its points. The point type is the
  template parameter.
\<close>

record 'p PointCloudT =
  header_stamp :: "64 word"
  points :: "'p list"

text \<open>
  A \<open>PointCloudT::Ptr\<close> is a shared pointer: null (\<open>None\<close>) or the address of a cloud.
  Clouds live in a store indexed by address; \<open>new\<close> takes the next free address, which is
  the length of the store. A shared pointer keeps its cloud alive, so nothing is ever
  freed under a pointer that is still held.
\<close>

type_synonym addr = nat

type_synonym 'p store = "'p PointCloudT list"

text \<open>
  \<open>float\<close> and \<open>double\<close> fields are only stored, never computed with; they are kept as
  their bit patterns.
\<close>

type_synonym float32 = "32 word"

type_synonym float64 = "64 word"

text \<open>The data members of the class (lines 186 to 203), the mutex apart.\<close>

record PointCloudMap =
  resolution :: float64
  bResetOnSparseMapChange :: bool
  bCloudDeformationOnSparseMapChange :: bool
  pPointCloud :: "addr option"
  pPointCloudUnstable :: "addr option"
  lastTimestamp :: "64 word"
  nDownsampleStep :: "32 word"
  bMapUpdated :: bool
  bRemoveUnstablePoints :: bool
  bPerformSegmentation :: bool
  bPerformCarving :: bool
  minCosForNormalAssociation :: float32

text \<open>The state a member function runs in: the store of clouds and the object itself.\<close>

record 'p state =
  heap :: "'p store"
  this :: PointCloudMap

text \<open>
  A shared pointer is null or points to a cloud of the store. Every operation below
  keeps this; a state without it corresponds to no state of the C++ program.
\<close>

definition valid_ptr :: "'p store \<Rightarrow> addr option \<Rightarrow> bool" where
  "valid_ptr h p = (case p of None \<Rightarrow> True | Some a \<Rightarrow> a < length h)"

definition wf_state :: "'p state \<Rightarrow> bool" where
  "wf_state s = (valid_ptr (heap s) (pPointCloud (this s)) \<and>
           valid_ptr (heap s) (pPointCloudUnstable (this s)))"

text \<open>
  \<open>makeShared()\<close> of the point-cloud library: \<open>Ptr(new PointCloud<PointT>(*this))\<close>. The cloud
  at \<open>a\<close> is copied into a newly allocated cell, whose address is returned.
\<close>

definition makeShared :: "'p store \<Rightarrow> addr \<Rightarrow> 'p store \<times> addr" where
  "makeShared h a = (h @ [h ! a], length h)"

subsection \<open>Getters (lines 111 to 161)\<close>

text \<open>
  The lock. \<open>std::unique_lock lck(mutex)\<close> blocks until the calling thread owns the mutex
  and releases it when the function returns, so a blocking getter is its body.
  \<open>std::unique_lock lck(mutex, timeout)\<close> tries for at most \<open>timeout\<close>; what the code
  reads afterwards is \<open>lck.owns_lock()\<close>. Whether another thread gives the mutex up in
  time is not a function of the map, so the timed getters take the value of
  \<open>lck.owns_lock()\<close> as their argument \<open>owns_lock\<close>.
\<close>

definition GetMap :: "'p state \<Rightarrow> 'p state \<times> addr option" where
  "GetMap s =
     (case pPointCloud (this s) of
        None \<Rightarrow> (s, None)
      | Some a \<Rightarrow> (let (h, p) = makeShared (heap s) a in (s\<lparr>heap := h\<rparr>, Some p)))"

definition GetMapWithTimeout :: "'p state \<Rightarrow> bool \<Rightarrow> 'p state \<times> addr option" where
  "GetMapWithTimeout s owns_lock =
     (if owns_lock then
        (case pPointCloud (this s) of
           None \<Rightarrow> (s, None)
         | Some a \<Rightarrow> (let (h, p) = makeShared (heap s) a in (s\<lparr>heap := h\<rparr>, Some p)))
      else (s, None))"

text \<open>
  The second overload writes through three references. Their values before the call are
  the record \<open>out\<close>, their values after it the record returned: on the success path
  \<open>pCloudUnstable\<close> keeps what the caller had put there unless \<open>copyUnstable\<close> is set.
\<close>

record outputs =
  pCloud :: "addr option"
  pCloudUnstable :: "addr option"
  faces :: "32 word list"

definition GetMapWithTimeout_refs ::
  "'p state \<Rightarrow> outputs \<Rightarrow> bool \<Rightarrow> bool \<Rightarrow> 'p state \<times> outputs" where
  "GetMapWithTimeout_refs s out owns_lock copyUnstable =
     (if owns_lock then
        (let (s1, out1) =
               (case pPointCloud (this s) of
                  None \<Rightarrow> (s, out\<lparr>pCloud := None\<rparr>)
                | Some a \<Rightarrow> (let (h, p) = makeShared (heap s) a
                            in (s\<lparr>heap := h\<rparr>, out\<lparr>pCloud := Some p\<rparr>)));
             (s2, out2) =
               (if copyUnstable then
                  (case pPointCloudUnstable (this s1) of
                     None \<Rightarrow> (s1, out1\<lparr>pCloudUnstable := None\<rparr>)
                   | Some a \<Rightarrow> (let (h, p) = makeShared (heap s1) a
                               in (s1\<lparr>heap := h\<rparr>, out1\<lparr>pCloudUnstable := Some p\<rparr>)))
                else (s1, out1))
         in (s2, out2\<lparr>faces := []\<rparr>))
      else (s, out\<lparr>pCloud := None, pCloudUnstable := None, faces := []\<rparr>))"

text \<open>
  \<open>GetMapTimestamp\<close> reads \<open>pPointCloud_->header.stamp\<close> with no test of the pointer.
  Dereferencing a null shared pointer is undefined behaviour; the model returns a fault
  there.
\<close>

datatype fault = NullPointerDereference

definition GetMapTimestamp :: "'p state \<Rightarrow> fault + 64 word" where
  "GetMapTimestamp s =
     (case pPointCloud (this s) of
        None \<Rightarrow> Inl NullPointerDereference
      | Some a \<Rightarrow> Inr (header_stamp (heap s ! a)))"

subsection \<open>Setters (lines 169 to 177)\<close>

text \<open>Each setter assigns its argument to one member. \<open>int\<close> is a 32-bit word.\<close>

definition SetRemoveUnstablePoints :: "bool \<Rightarrow> PointCloudMap \<Rightarrow> PointCloudMap" where
  "SetRemoveUnstablePoints val m = m\<lparr>bRemoveUnstablePoints := val\<rparr>"

definition SetPerformSegmentation :: "bool \<Rightarrow> PointCloudMap \<Rightarrow> PointCloudMap" where
  "SetPerformSegmentation val m = m\<lparr>bPerformSegmentation := val\<rparr>"

definition SetPerformCarving :: "bool \<Rightarrow> PointCloudMap \<Rightarrow> PointCloudMap" where
  "SetPerformCarving val m = m\<lparr>bPerformCarving := val\<rparr>"

definition SetDownsampleStep :: "32 word \<Rightarrow> PointCloudMap \<Rightarrow> PointCloudMap" where
  "SetDownsampleStep val m = m\<lparr>nDownsampleStep := val\<rparr>"

definition SetResetOnMapChange :: "bool \<Rightarrow> PointCloudMap \<Rightarrow> PointCloudMap" where
  "SetResetOnMapChange val m = m\<lparr>bResetOnSparseMapChange := val\<rparr>"

definition SetKfAdjustmentOnMapChange :: "bool \<Rightarrow> PointCloudMap \<Rightarrow> PointCloudMap" where
  "SetKfAdjustmentOnMapChange val m = m\<lparr>bCloudDeformationOnSparseMapChange := val\<rparr>"

definition SetMinCosForNormalAssociation :: "float32 \<Rightarrow> PointCloudMap \<Rightarrow> PointCloudMap" where
  "SetMinCosForNormalAssociation val m = m\<lparr>minCosForNormalAssociation := val\<rparr>"

text \<open>A call of one of the seven setters, and a sequence of such calls run in order.\<close>

datatype setter_call =
    CallSetRemoveUnstablePoints bool
  | CallSetPerformSegmentation bool
  | CallSetPerformCarving bool
  | CallSetDownsampleStep "32 word"
  | CallSetResetOnMapChange bool
  | CallSetKfAdjustmentOnMapChange bool
  | CallSetMinCosForNormalAssociation float32

fun call_setter :: "setter_call \<Rightarrow> PointCloudMap \<Rightarrow> PointCloudMap" where
  "call_setter (CallSetRemoveUnstablePoints v) m = SetRemoveUnstablePoints v m"
| "call_setter (CallSetPerformSegmentation v) m = SetPerformSegmentation v m"
| "call_setter (CallSetPerformCarving v) m = SetPerformCarving v m"
| "call_setter (CallSetDownsampleStep v) m = SetDownsampleStep v m"
| "call_setter (CallSetResetOnMapChange v) m = SetResetOnMapChange v m"
| "call_setter (CallSetKfAdjustmentOnMapChange v) m = SetKfAdjustmentOnMapChange v m"
| "call_setter (CallSetMinCosForNormalAssociation v) m = SetMinCosForNormalAssociation v m"

fun run_setters :: "setter_call list \<Rightarrow> PointCloudMap \<Rightarrow> PointCloudMap" where
  "run_setters [] m = m"
| "run_setters (c # cs) m = run_setters cs (call_setter c m)"

subsection \<open>Operations declared in the header whose bodies are elsewhere\<close>

text \<open>Reading and writing the points of the cloud behind a pointer member, for the
  operations modelled below; a null member has no points and takes none.\<close>

definition cloud_points :: "'p store \<Rightarrow> addr option \<Rightarrow> 'p list" where
  "cloud_points h p = (case p of None \<Rightarrow> [] | Some a \<Rightarrow> points (h ! a))"

definition set_points :: "'p store \<Rightarrow> addr option \<Rightarrow> 'p list \<Rightarrow> 'p store" where
  "set_points h p ps = (case p of None \<Rightarrow> h | Some a \<Rightarrow> h[a := (h ! a)\<lparr>points := ps\<rparr>])"

text \<open>
  Modelled from the spec: the body of \<open>UpdateMapTimestamp\<close> (declared at line 98) is not
  in the header. Section 4.2, step 8: "Update the Map Store timestamp to the frame's
  timestamp (or wall-clock time if frame timestamps are unavailable) and release the write
  lock". The function takes no argument: the timestamp it publishes is the one the merge
  has just recorded in \<open>lastTimestamp_\<close> (line 194), the frame's or the wall clock's, and
  the timestamp of the map is the stamp that \<open>GetMapTimestamp\<close> reads. A map with no
  cloud has no stamp to update.
\<close>

definition UpdateMapTimestamp :: "'p state \<Rightarrow> 'p state" where
  "UpdateMapTimestamp s =
     (case pPointCloud (this s) of
        None \<Rightarrow> s
      | Some a \<Rightarrow> s\<lparr>heap := (heap s)[a := (heap s ! a)\<lparr>header_stamp := lastTimestamp (this s)\<rparr>]\<rparr>)"

text \<open>
  Modelled from the spec: \<open>PointCloudMapInput.h\<close> is included by the header but is not
  among the sources. Section 3: an input frame is "a camera-local point cloud plus the
  camera-to-world transform at capture time, plus the frame's sensor timestamp". The
  transform is a matrix of floating-point entries, kept as their bit patterns. Step 8 of
  section 4.2 provides for frames whose timestamp is unavailable, so the timestamp is
  optional.
\<close>

record 'p PointCloudMapInput =
  frame_points :: "'p list"
  frame_transform :: "float64 list"
  frame_timestamp :: "64 word option"

text \<open>
  Steps 2 to 7 of the ingestion (transform, downsampling, association by normals,
  promotion, carving, segmentation) are geometry that the map delegates to the point-cloud
  library. They enter as a parameter: from the frame, the stable points and the unstable
  points, the new stable and unstable points.
\<close>

type_synonym 'p fusion =
  "'p PointCloudMapInput \<Rightarrow> 'p list \<Rightarrow> 'p list \<Rightarrow> 'p list \<times> 'p list"

text \<open>
  Modelled from the spec: \<open>InsertData\<close> and \<open>UpdateMap\<close> are pure virtual (lines 94 and 96)
  and no implementation is among the sources. What an accepted frame does to the map,
  after section 4.2: steps 2 to 7 through the parameter \<open>fuse\<close>; step 8, "Update the Map
  Store timestamp to the frame's timestamp (or wall-clock time if frame timestamps are
  unavailable)", where \<open>t\<close> is the one of the two that applies.
\<close>

definition merge_accepted ::
  "'p fusion \<Rightarrow> 'p state \<Rightarrow> 'p PointCloudMapInput \<Rightarrow> 64 word \<Rightarrow> 'p state" where
  "merge_accepted fuse s f t =
     (let (ps, us) =
            fuse f (cloud_points (heap s) (pPointCloud (this s)))
                   (cloud_points (heap s) (pPointCloudUnstable (this s)));
          h1 = set_points (heap s) (pPointCloudUnstable (this s)) us;
          h2 = set_points h1 (pPointCloud (this s)) ps
      in UpdateMapTimestamp (s\<lparr>heap := h2, this := (this s)\<lparr>lastTimestamp := t\<rparr>\<rparr>))"

text \<open>
  Modelled from the spec: one ingestion step of section 4.2, for a frame \<open>f\<close> that arrives
  when the wall clock reads \<open>now\<close>. "A malformed/empty input frame is a no-op". Step 1,
  "Reject the frame if its sensor timestamp is not newer than the last accepted
  timestamp": a frame that carries a sensor timestamp is rejected unless that timestamp
  is newer; a frame that carries none has nothing the guard could compare. Step 8 gives
  an accepted frame its sensor timestamp, "or wall-clock time if frame timestamps are
  unavailable". \<open>None\<close> is a frame that was not accepted: the state stays as it was.
\<close>

definition merge_frame ::
  "'p fusion \<Rightarrow> 'p state \<Rightarrow> 'p PointCloudMapInput \<Rightarrow> 64 word \<Rightarrow> 'p state option" where
  "merge_frame fuse s f now =
     (if frame_points f = [] then None
      else
        (case frame_timestamp f of
           Some t \<Rightarrow>
             if t \<le> lastTimestamp (this s) then None else Some (merge_accepted fuse s f t)
         | None \<Rightarrow> Some (merge_accepted fuse s f now)))"




text \<open>
  The spec has one timestamp of the Map Store; the class holds it twice, in
  \<open>lastTimestamp_\<close> and in the stamp of the stored cloud. It is published when the stamp
  of the stored cloud, if there is one, is the last accepted timestamp.
\<close>

definition stamp_published :: "'p state \<Rightarrow> bool" where
  "stamp_published s =
     (case pPointCloud (this s) of
        None \<Rightarrow> True
      | Some a \<Rightarrow> header_stamp (heap s ! a) = lastTimestamp (this s))"


text \<open>
  Modelled from the spec: \<open>ResetPointCloud\<close> (declared at line 179) has no body in the
  header. Section 4.1: "reset(): clears both clouds and resets timestamp". Both clouds lose
  their points; the last accepted timestamp and the stamp of the map go back to zero.
\<close>

definition ResetPointCloud :: "'p state \<Rightarrow> 'p state" where
  "ResetPointCloud s =
     (let h1 = set_points (heap s) (pPointCloud (this s)) [];
          h2 = set_points h1 (pPointCloudUnstable (this s)) []
      in UpdateMapTimestamp (s\<lparr>heap := h2, this := (this s)\<lparr>lastTimestamp := 0\<rparr>\<rparr>))"

text \<open>
  Modelled from the spec: the virtual \<open>Clear\<close> (declared at line 100) has no body in the
  header. Section 4.4: "clears the map (transition: active \<rightarrow> active, with full reset)".
\<close>

definition Clear :: "'p state \<Rightarrow> 'p state" where
  "Clear s = ResetPointCloud s"

subsection \<open>Mutations of the stored clouds\<close>

text \<open>
  The clouds are reached through the two pointer members only. Apart from the three
  operations above, a member function can overwrite the cloud a member points to, make a
  member point to a newly allocated cloud or to nothing, or copy one member to the
  other. Sequences of these stand for whatever the bodies outside the header do to the
  stored clouds.
\<close>

datatype target = MapCloud | UnstableCloud

fun get_ptr :: "target \<Rightarrow> PointCloudMap \<Rightarrow> addr option" where
  "get_ptr MapCloud m = pPointCloud m"
| "get_ptr UnstableCloud m = pPointCloudUnstable m"

fun set_ptr :: "target \<Rightarrow> addr option \<Rightarrow> PointCloudMap \<Rightarrow> PointCloudMap" where
  "set_ptr MapCloud p m = m\<lparr>pPointCloud := p\<rparr>"
| "set_ptr UnstableCloud p m = m\<lparr>pPointCloudUnstable := p\<rparr>"

datatype 'p mutation =
    Merge "'p PointCloudMapInput" "64 word"
  | CallClear
  | CallResetPointCloud
  | Overwrite target "'p PointCloudT"
  | Reseat target "'p PointCloudT option"
  | Assign target target

fun mutate :: "'p fusion \<Rightarrow> 'p mutation \<Rightarrow> 'p state \<Rightarrow> 'p state" where
  "mutate fuse (Merge f now) s =
     (case merge_frame fuse s f now of None \<Rightarrow> s | Some s' \<Rightarrow> s')"
| "mutate fuse CallClear s = Clear s"
| "mutate fuse CallResetPointCloud s = ResetPointCloud s"
| "mutate fuse (Overwrite t c) s =
     (case get_ptr t (this s) of
        None \<Rightarrow> s
      | Some a \<Rightarrow> s\<lparr>heap := (heap s)[a := c]\<rparr>)"
| "mutate fuse (Reseat t None) s = s\<lparr>this := set_ptr t None (this s)\<rparr>"
| "mutate fuse (Reseat t (Some c)) s =
     s\<lparr>heap := heap s @ [c], this := set_ptr t (Some (length (heap s))) (this s)\<rparr>"
| "mutate fuse (Assign t t') s = s\<lparr>this := set_ptr t (get_ptr t' (this s)) (this s)\<rparr>"

fun mutations :: "'p fusion \<Rightarrow> 'p mutation list \<Rightarrow> 'p state \<Rightarrow> 'p state" where
  "mutations fuse [] s = s"
| "mutations fuse (m # ms) s = mutations fuse ms (mutate fuse m s)"

text \<open>
  A snapshot at address \<open>p\<close> holding the cloud \<open>c\<close> is kept through a run of mutations:
  afterwards the cell still holds \<open>c\<close>, and neither member points to it.
\<close>

definition snapshot_kept ::
  "'p fusion \<Rightarrow> 'p mutation list \<Rightarrow> 'p state \<Rightarrow> addr \<Rightarrow> 'p PointCloudT \<Rightarrow> bool" where
  "snapshot_kept fuse ms s p c =
     (let s' = mutations fuse ms s
      in heap s' ! p = c \<and> pPointCloud (this s') \<noteq> Some p \<and> pPointCloudUnstable (this s') \<noteq> Some p)"

subsection \<open>What a sequence of setter calls leaves in a member\<close>

text \<open>The argument of the latest call of one setter in a sequence, or \<open>b\<close> when the
  sequence does not call it.\<close>

fun latest_ResetOnMapChange :: "setter_call list \<Rightarrow> bool \<Rightarrow> bool" where
  "latest_ResetOnMapChange [] b = b"
| "latest_ResetOnMapChange (CallSetResetOnMapChange v # cs) b = latest_ResetOnMapChange cs v"
| "latest_ResetOnMapChange (c # cs) b = latest_ResetOnMapChange cs b"

fun latest_KfAdjustmentOnMapChange :: "setter_call list \<Rightarrow> bool \<Rightarrow> bool" where
  "latest_KfAdjustmentOnMapChange [] b = b"
| "latest_KfAdjustmentOnMapChange (CallSetKfAdjustmentOnMapChange v # cs) b =
     latest_KfAdjustmentOnMapChange cs v"
| "latest_KfAdjustmentOnMapChange (c # cs) b = latest_KfAdjustmentOnMapChange cs b"

fun latest_DownsampleStep :: "setter_call list \<Rightarrow> 32 word \<Rightarrow> 32 word" where
  "latest_DownsampleStep [] n = n"
| "latest_DownsampleStep (CallSetDownsampleStep v # cs) n = latest_DownsampleStep cs v"
| "latest_DownsampleStep (c # cs) n = latest_DownsampleStep cs n"

text \<open>The two policies on a change of the sparse map are not both enabled.\<close>

definition policies_exclusive :: "PointCloudMap \<Rightarrow> bool" where
  "policies_exclusive m = (\<not> (bResetOnSparseMapChange m \<and> bCloudDeformationOnSparseMapChange m))"

text \<open>The stored downsample step, read as the signed \<open>int\<close> it is, is at least one.\<close>

definition step_positive :: "PointCloudMap \<Rightarrow> bool" where
  "step_positive m = (1 \<le> sint (nDownsampleStep m))"

subsection \<open>Concrete states\<close>

text \<open>
  A map with a stable cloud of three points at address 0, an unstable cloud of one point
  at address 1, timestamp 7, a downsample step of 1 and both policies off; and a map whose
  clouds have not been allocated.
\<close>

definition example_map :: PointCloudMap where
  "example_map =
     \<lparr>resolution = 0, bResetOnSparseMapChange = False,
      bCloudDeformationOnSparseMapChange = False,
      pPointCloud = Some 0, pPointCloudUnstable = Some 1, lastTimestamp = 7,
      nDownsampleStep = 1, bMapUpdated = False, bRemoveUnstablePoints = False,
      bPerformSegmentation = False, bPerformCarving = False,
      minCosForNormalAssociation = 0\<rparr>"

definition example_state :: "nat state" where
  "example_state =
     \<lparr>heap = [\<lparr>header_stamp = 7, points = [10, 20, 30]\<rparr>, \<lparr>header_stamp = 0, points = [40]\<rparr>],
      this = example_map\<rparr>"

definition unallocated_state :: "nat state" where
  "unallocated_state =
     \<lparr>heap = [], this = example_map\<lparr>pPointCloud := None, pPointCloudUnstable := None\<rparr>\<rparr>"

definition example_outputs :: outputs where
  "example_outputs = \<lparr>pCloud = Some 0, pCloudUnstable = Some 1, faces = [0, 1, 2]\<rparr>"

text \<open>A fusion that leaves the stable points alone and adds the points of the frame to
  the unstable ones.\<close>

definition example_fuse :: "nat fusion" where
  "example_fuse f ps us = (ps, us @ frame_points f)"



text \<open>A run of mutations: a merge, an overwrite of the stable cloud, a clear, a new
  unstable cloud and a reset.\<close>

definition example_mutations :: "nat mutation list" where
  "example_mutations =
     [Merge \<lparr>frame_points = [50], frame_transform = [], frame_timestamp = Some 9\<rparr> 0,
      Overwrite MapCloud \<lparr>header_stamp = 10, points = [1]\<rparr>,
      CallClear,
      Reseat UnstableCloud (Some \<lparr>header_stamp = 0, points = [2]\<rparr>),
      CallResetPointCloud]"

text \<open>The example state after a copy of the stable cloud, and after a copy of both
  clouds.\<close>

definition example_state_copy :: "nat state" where
  "example_state_copy =
     \<lparr>heap = [\<lparr>header_stamp = 7, points = [10, 20, 30]\<rparr>, \<lparr>header_stamp = 0, points = [40]\<rparr>,
              \<lparr>header_stamp = 7, points = [10, 20, 30]\<rparr>],
      this = example_map\<rparr>"

definition example_state_copies :: "nat state" where
  "example_state_copies =
     \<lparr>heap = [\<lparr>header_stamp = 7, points = [10, 20, 30]\<rparr>, \<lparr>header_stamp = 0, points = [40]\<rparr>,
              \<lparr>header_stamp = 7, points = [10, 20, 30]\<rparr>, \<lparr>header_stamp = 0, points = [40]\<rparr>],
      this = example_map\<rparr>"

section \<open>Properties of the getters\<close>

text \<open>
  C1. When the timed acquisition of the lock fails, the three-output \<open>GetMapWithTimeout\<close>
  hands back null for \<open>pCloud\<close>, null for \<open>pCloudUnstable\<close> and an empty \<open>faces\<close>, whatever
  the three references held before, and the state of the map (the object and every
  stored cloud) is what it was.
\<close>

theorem GetMapWithTimeout_refs_timeout:
  "\<not> owns_lock \<Longrightarrow>
   GetMapWithTimeout_refs s out owns_lock copyUnstable =
     (s, \<lparr>pCloud = None, pCloudUnstable = None, faces = []\<rparr>)"
  by (simp add: GetMapWithTimeout_refs_def)

theorem GetMapWithTimeout_refs_timeout_witness:
  "\<not> False \<and>
   GetMapWithTimeout_refs example_state example_outputs False True =
     (example_state, \<lparr>pCloud = None, pCloudUnstable = None, faces = []\<rparr>)"
  using GetMapWithTimeout_refs_timeout [of False example_state example_outputs True]
  by simp

text \<open>
  C9. The three-output \<open>GetMapWithTimeout\<close> always hands back an empty \<open>faces\<close> vector:
  both branches end in \<open>faces.clear()\<close>, whatever the vector held before, whether or not
  the lock was obtained and whether or not the unstable cloud is copied.
\<close>

theorem GetMapWithTimeout_refs_faces_empty:
  "faces (snd (GetMapWithTimeout_refs s out owns_lock copyUnstable)) = []"
  by (simp add: GetMapWithTimeout_refs_def Let_def split: prod.split option.split)

text \<open>
  C10. When \<open>pPointCloud_\<close> is null, \<open>GetMap\<close> and both overloads of \<open>GetMapWithTimeout\<close>
  return a null pointer although the lock was obtained, and allocate no cloud; the
  result is the one of a timed-out call, so a null result does not tell the two apart.
\<close>

theorem null_map_gives_null_snapshot:
  "pPointCloud (this s) = None \<Longrightarrow>
   GetMap s = (s, None) \<and>
   GetMapWithTimeout s True = (s, None) \<and>
   GetMapWithTimeout s True = GetMapWithTimeout s False \<and>
   pCloud (snd (GetMapWithTimeout_refs s out True False)) = None \<and>
   pCloud (snd (GetMapWithTimeout_refs s out True False)) =
     pCloud (snd (GetMapWithTimeout_refs s out False False))"
  by (simp add: GetMap_def GetMapWithTimeout_def GetMapWithTimeout_refs_def)

theorem null_map_gives_null_snapshot_witness:
  "pPointCloud (this unallocated_state) = None \<and>
   GetMap unallocated_state = (unallocated_state, None) \<and>
   GetMapWithTimeout unallocated_state True = (unallocated_state, None) \<and>
   GetMapWithTimeout unallocated_state False = (unallocated_state, None) \<and>
   pCloud (snd (GetMapWithTimeout_refs unallocated_state example_outputs True False)) = None \<and>
   pCloud (snd (GetMapWithTimeout_refs unallocated_state example_outputs False False)) = None"
proof -
  have null: "pPointCloud (this unallocated_state) = None"
    by (simp add: unallocated_state_def example_map_def)
  from null_map_gives_null_snapshot [OF null, of example_outputs] null
  show ?thesis by metis
qed

text \<open>
  C4. \<open>GetMapTimestamp\<close> on a map whose cloud pointer is null. \<open>GetMap\<close> and
  \<open>GetMapWithTimeout\<close> test the pointer before they use it; \<open>GetMapTimestamp\<close> does not,
  and dereferences the null pointer.
\<close>

theorem GetMapTimestamp_unallocated:
  "GetMapTimestamp unallocated_state = Inl NullPointerDereference"
  by (simp add: GetMapTimestamp_def unallocated_state_def example_map_def)

section \<open>Properties of the setters\<close>

lemmas setter_defs =
  SetRemoveUnstablePoints_def SetPerformSegmentation_def SetPerformCarving_def
  SetDownsampleStep_def SetResetOnMapChange_def SetKfAdjustmentOnMapChange_def
  SetMinCosForNormalAssociation_def

lemma bResetOnSparseMapChange_run_setters:
  "bResetOnSparseMapChange (run_setters cs m) =
     latest_ResetOnMapChange cs (bResetOnSparseMapChange m)"
proof (induction cs arbitrary: m)
  case Nil
  show ?case by simp
next
  case (Cons c cs)
  show ?case
    by (cases c) (simp_all add: Cons.IH setter_defs)
qed

lemma bCloudDeformationOnSparseMapChange_run_setters:
  "bCloudDeformationOnSparseMapChange (run_setters cs m) =
     latest_KfAdjustmentOnMapChange cs (bCloudDeformationOnSparseMapChange m)"
proof (induction cs arbitrary: m)
  case Nil
  show ?case by simp
next
  case (Cons c cs)
  show ?case
    by (cases c) (simp_all add: Cons.IH setter_defs)
qed

lemma nDownsampleStep_run_setters:
  "nDownsampleStep (run_setters cs m) = latest_DownsampleStep cs (nDownsampleStep m)"
proof (induction cs arbitrary: m)
  case Nil
  show ?case by simp
next
  case (Cons c cs)
  show ?case
    by (cases c) (simp_all add: Cons.IH setter_defs)
qed

text \<open>
  C5, as the claim states it, fails: enabling the reset policy and then the adjustment
  policy leaves both enabled.
\<close>

theorem policies_exclusive_counterexample:
  "\<not> policies_exclusive
        (run_setters [CallSetResetOnMapChange True, CallSetKfAdjustmentOnMapChange True]
           example_map)"
  by (simp add: policies_exclusive_def SetResetOnMapChange_def SetKfAdjustmentOnMapChange_def
        example_map_def)

text \<open>
  C5, amended. The setters do not enforce the exclusion. After any sequence of setter
  calls each policy flag holds the argument of the latest call of its own setter (its
  earlier value when the sequence has no such call), so the two policies are not both
  enabled exactly when those two latest arguments are not both true.
\<close>

theorem policies_follow_latest_calls:
  "bResetOnSparseMapChange (run_setters cs m) =
     latest_ResetOnMapChange cs (bResetOnSparseMapChange m) \<and>
   bCloudDeformationOnSparseMapChange (run_setters cs m) =
     latest_KfAdjustmentOnMapChange cs (bCloudDeformationOnSparseMapChange m) \<and>
   (policies_exclusive (run_setters cs m) \<longleftrightarrow>
     \<not> (latest_ResetOnMapChange cs (bResetOnSparseMapChange m) \<and>
        latest_KfAdjustmentOnMapChange cs (bCloudDeformationOnSparseMapChange m)))"
  by (simp add: policies_exclusive_def bResetOnSparseMapChange_run_setters
        bCloudDeformationOnSparseMapChange_run_setters)

theorem policies_follow_latest_calls_witness:
  "policies_exclusive
     (run_setters [CallSetResetOnMapChange True, CallSetDownsampleStep 4,
                   CallSetResetOnMapChange False, CallSetKfAdjustmentOnMapChange True]
        example_map)"
  using policies_follow_latest_calls
    [of "[CallSetResetOnMapChange True, CallSetDownsampleStep 4,
          CallSetResetOnMapChange False, CallSetKfAdjustmentOnMapChange True]" example_map]
  by (simp add: example_map_def)

text \<open>
  C8, as the claim states it, fails: \<open>SetDownsampleStep(0)\<close> stores 0.
\<close>

theorem step_positive_counterexample:
  "\<not> step_positive (run_setters [CallSetDownsampleStep 0] example_map)"
  by (simp add: step_positive_def SetDownsampleStep_def)

text \<open>
  C8, amended. \<open>SetDownsampleStep\<close> stores its argument unchecked and no other setter
  touches the member: after any sequence of setter calls the stored step is the argument
  of the latest \<open>SetDownsampleStep\<close> call (the earlier value when there is none), so it is
  at least one exactly when that argument is.
\<close>

theorem step_follows_latest_call:
  "nDownsampleStep (run_setters cs m) = latest_DownsampleStep cs (nDownsampleStep m) \<and>
   (step_positive (run_setters cs m) \<longleftrightarrow> 1 \<le> sint (latest_DownsampleStep cs (nDownsampleStep m)))"
  by (simp add: step_positive_def nDownsampleStep_run_setters)

theorem step_follows_latest_call_witness:
  "step_positive
     (run_setters [CallSetDownsampleStep (- 3), CallSetPerformCarving True,
                   CallSetDownsampleStep 2] example_map)"
  using step_follows_latest_call
    [of "[CallSetDownsampleStep (- 3), CallSetPerformCarving True, CallSetDownsampleStep 2]"
        example_map]
  by simp

section \<open>The stored clouds under the operations that change them\<close>

lemma length_set_points [simp]: "length (set_points h p ps) = length h"
  by (simp add: set_points_def split: option.split)

lemma heap_UpdateMapTimestamp_length [simp]:
  "length (heap (UpdateMapTimestamp s)) = length (heap s)"
  by (simp add: UpdateMapTimestamp_def split: option.split)

lemma this_UpdateMapTimestamp [simp]: "this (UpdateMapTimestamp s) = this s"
  by (simp add: UpdateMapTimestamp_def split: option.split)

lemma wf_UpdateMapTimestamp [simp]: "wf_state (UpdateMapTimestamp s) = wf_state s"
  by (simp add: wf_state_def valid_ptr_def split: option.split)

lemma nth_set_points_other: "q \<noteq> Some p \<Longrightarrow> set_points h q ps ! p = h ! p"
  by (cases q) (simp_all add: set_points_def)

lemma nth_UpdateMapTimestamp_other:
  "pPointCloud (this s) \<noteq> Some p \<Longrightarrow> heap (UpdateMapTimestamp s) ! p = heap s ! p"
  by (cases "pPointCloud (this s)") (simp_all add: UpdateMapTimestamp_def)


lemma this_ResetPointCloud: "this (ResetPointCloud s) = (this s)\<lparr>lastTimestamp := 0\<rparr>"
  by (simp add: ResetPointCloud_def Let_def)

lemma length_heap_ResetPointCloud: "length (heap (ResetPointCloud s)) = length (heap s)"
  by (simp add: ResetPointCloud_def Let_def)

lemma nth_heap_ResetPointCloud:
  "pPointCloud (this s) \<noteq> Some p \<Longrightarrow> pPointCloudUnstable (this s) \<noteq> Some p \<Longrightarrow>
   heap (ResetPointCloud s) ! p = heap s ! p"
  by (simp add: ResetPointCloud_def Let_def nth_UpdateMapTimestamp_other nth_set_points_other)

lemma this_merge_accepted: "this (merge_accepted fuse s f t) = (this s)\<lparr>lastTimestamp := t\<rparr>"
  by (simp add: merge_accepted_def Let_def split: prod.split)

lemma length_heap_merge_accepted: "length (heap (merge_accepted fuse s f t)) = length (heap s)"
  by (simp add: merge_accepted_def Let_def split: prod.split)

lemma nth_heap_merge_accepted:
  "pPointCloud (this s) \<noteq> Some p \<Longrightarrow> pPointCloudUnstable (this s) \<noteq> Some p \<Longrightarrow>
   heap (merge_accepted fuse s f t) ! p = heap s ! p"
  by (simp add: merge_accepted_def Let_def nth_UpdateMapTimestamp_other nth_set_points_other
        split: prod.split)


text \<open>An accepted frame was merged with its sensor timestamp, which is newer than the
  last accepted one, or it has none and was merged with the reading of the clock.\<close>

lemma merge_frame_Some:
  assumes "merge_frame fuse s f now = Some s'"
  obtains t where "s' = merge_accepted fuse s f t"
    and "frame_timestamp f = Some t \<and> lastTimestamp (this s) < t \<or>
         frame_timestamp f = None \<and> t = now"
  using assms
  by (auto simp: merge_frame_def not_le split: if_splits option.splits)

lemma pPointCloud_merge_frame:
  "merge_frame fuse s f now = Some s' \<Longrightarrow> pPointCloud (this s') = pPointCloud (this s)"
  by (erule merge_frame_Some) (simp add: this_merge_accepted)

lemma pPointCloudUnstable_merge_frame:
  "merge_frame fuse s f now = Some s' \<Longrightarrow>
   pPointCloudUnstable (this s') = pPointCloudUnstable (this s)"
  by (erule merge_frame_Some) (simp add: this_merge_accepted)

lemma length_heap_merge_frame:
  "merge_frame fuse s f now = Some s' \<Longrightarrow> length (heap s') = length (heap s)"
  by (erule merge_frame_Some) (simp add: length_heap_merge_accepted)

lemma nth_heap_merge_frame:
  "merge_frame fuse s f now = Some s' \<Longrightarrow> pPointCloud (this s) \<noteq> Some p \<Longrightarrow>
   pPointCloudUnstable (this s) \<noteq> Some p \<Longrightarrow> heap s' ! p = heap s ! p"
  by (erule merge_frame_Some) (simp add: nth_heap_merge_accepted)

lemma wf_merge_frame: "merge_frame fuse s f now = Some s' \<Longrightarrow> wf_state s \<Longrightarrow> wf_state s'"
  by (simp add: wf_state_def valid_ptr_def pPointCloud_merge_frame
        pPointCloudUnstable_merge_frame length_heap_merge_frame split: option.splits)


lemma stamp_published_ResetPointCloud: "wf_state s \<Longrightarrow> stamp_published (ResetPointCloud s)"
  by (cases "pPointCloud (this s)")
     (simp_all add: stamp_published_def ResetPointCloud_def UpdateMapTimestamp_def Let_def
        wf_state_def valid_ptr_def)






text \<open>
  C6. Reset is idempotent: from every state, a second \<open>ResetPointCloud\<close> right after the
  first leaves the state (the object and every stored cloud) exactly as the first left
  it.
\<close>

theorem ResetPointCloud_idempotent: "ResetPointCloud (ResetPointCloud s) = ResetPointCloud s"
proof (cases "pPointCloud (this s)")
  case None
  note map_null = None
  show ?thesis
  proof (cases "pPointCloudUnstable (this s)")
    case None
    with map_null show ?thesis
      by (simp add: ResetPointCloud_def UpdateMapTimestamp_def set_points_def Let_def list_update_beyond)
  next
    case (Some b)
    with map_null show ?thesis
      by (cases "b < length (heap s)")
         (simp_all add: ResetPointCloud_def UpdateMapTimestamp_def set_points_def Let_def list_update_beyond)
  qed
next
  case (Some a)
  note map_a = Some
  show ?thesis
  proof (cases "pPointCloudUnstable (this s)")
    case None
    with map_a show ?thesis
      by (cases "a < length (heap s)")
         (simp_all add: ResetPointCloud_def UpdateMapTimestamp_def set_points_def Let_def list_update_beyond)
  next
    case (Some b)
    with map_a show ?thesis
      by (cases "a < length (heap s)"; cases "b < length (heap s)"; cases "a = b")
         (simp_all add: ResetPointCloud_def UpdateMapTimestamp_def set_points_def Let_def list_update_beyond
            list_update_swap)
  qed
qed

theorem ResetPointCloud_idempotent_witness:
  "ResetPointCloud (ResetPointCloud example_state) = ResetPointCloud example_state \<and>
   ResetPointCloud example_state =
     \<lparr>heap = [\<lparr>header_stamp = 0, points = []\<rparr>, \<lparr>header_stamp = 0, points = []\<rparr>],
      this = example_map\<lparr>lastTimestamp := 0\<rparr>\<rparr>"
  using ResetPointCloud_idempotent [of example_state]
  by (simp add: ResetPointCloud_def UpdateMapTimestamp_def set_points_def example_state_def
        example_map_def)




section \<open>Snapshots\<close>

text \<open>A cell that neither member points to is out of reach of every mutation.\<close>

lemma mutate_frame:
  assumes "wf_state s" and "p < length (heap s)"
    and "pPointCloud (this s) \<noteq> Some p" and "pPointCloudUnstable (this s) \<noteq> Some p"
  shows "wf_state (mutate fuse m s) \<and> p < length (heap (mutate fuse m s)) \<and>
         pPointCloud (this (mutate fuse m s)) \<noteq> Some p \<and>
         pPointCloudUnstable (this (mutate fuse m s)) \<noteq> Some p \<and>
         heap (mutate fuse m s) ! p = heap s ! p"
proof (cases m)
  case (Merge f now)
  show ?thesis
  proof (cases "merge_frame fuse s f now")
    case None
    with Merge assms show ?thesis by simp
  next
    case (Some s')
    with Merge assms show ?thesis
      by (simp add: wf_merge_frame pPointCloud_merge_frame pPointCloudUnstable_merge_frame
            length_heap_merge_frame nth_heap_merge_frame)
  qed
next
  case CallClear
  with assms show ?thesis
    by (simp add: Clear_def this_ResetPointCloud length_heap_ResetPointCloud
          nth_heap_ResetPointCloud wf_state_def valid_ptr_def split: option.splits)
next
  case CallResetPointCloud
  with assms show ?thesis
    by (simp add: this_ResetPointCloud length_heap_ResetPointCloud
          nth_heap_ResetPointCloud wf_state_def valid_ptr_def split: option.splits)
next
  case (Overwrite t c)
  with assms show ?thesis
    by (cases t; cases "get_ptr t (this s)")
       (auto simp: wf_state_def valid_ptr_def split: option.splits)
next
  case (Reseat t c)
  with assms show ?thesis
    by (cases t; cases c)
       (auto simp: wf_state_def valid_ptr_def nth_append split: option.splits)
next
  case (Assign t t')
  with assms show ?thesis
    by (cases t; cases t') (auto simp: wf_state_def valid_ptr_def split: option.splits)
qed

lemma mutations_frame:
  assumes "wf_state s" and "p < length (heap s)"
    and "pPointCloud (this s) \<noteq> Some p" and "pPointCloudUnstable (this s) \<noteq> Some p"
  shows "snapshot_kept fuse ms s p (heap s ! p)"
  using assms
proof (induction ms arbitrary: s)
  case Nil
  then show ?case by (simp add: snapshot_kept_def)
next
  case (Cons m ms)
  from mutate_frame [OF Cons.prems, of fuse m]
  have step: "wf_state (mutate fuse m s)" "p < length (heap (mutate fuse m s))"
    "pPointCloud (this (mutate fuse m s)) \<noteq> Some p"
    "pPointCloudUnstable (this (mutate fuse m s)) \<noteq> Some p"
    and same: "heap (mutate fuse m s) ! p = heap s ! p"
    by simp_all
  from Cons.IH [OF step] same show ?case
    by (simp add: snapshot_kept_def)
qed

text \<open>The copy that \<open>makeShared\<close> makes of a cloud of a well-formed state.\<close>

lemma makeShared_snapshot:
  assumes "wf_state s" and "a < length (heap s)"
  shows "snapshot_kept fuse ms (s\<lparr>heap := heap s @ [heap s ! a]\<rparr>) (length (heap s)) (heap s ! a)"
proof -
  let ?s1 = "s\<lparr>heap := heap s @ [heap s ! a]\<rparr>"
  have "wf_state ?s1"
    using assms(1) by (auto simp: wf_state_def valid_ptr_def split: option.splits)
  moreover have "length (heap s) < length (heap ?s1)"
    by simp
  moreover have "pPointCloud (this ?s1) \<noteq> Some (length (heap s))"
    using assms(1) by (auto simp: wf_state_def valid_ptr_def)
  moreover have "pPointCloudUnstable (this ?s1) \<noteq> Some (length (heap s))"
    using assms(1) by (auto simp: wf_state_def valid_ptr_def)
  ultimately have "snapshot_kept fuse ms ?s1 (length (heap s)) (heap ?s1 ! length (heap s))"
    by (rule mutations_frame)
  then show ?thesis by simp
qed

lemma GetMap_snapshot:
  assumes "wf_state s" and "pPointCloud (this s) = Some a"
  shows "\<exists>p. snd (GetMap s) = Some p \<and>
             snapshot_kept fuse ms (fst (GetMap s)) p (heap s ! a)"
proof -
  from assms have "a < length (heap s)"
    by (simp add: wf_state_def valid_ptr_def)
  from makeShared_snapshot [OF assms(1) this, of fuse ms] assms(2) show ?thesis
    by (simp add: GetMap_def makeShared_def)
qed

lemma GetMapWithTimeout_snapshot:
  assumes "wf_state s" and "pPointCloud (this s) = Some a"
  shows "\<exists>p. snd (GetMapWithTimeout s True) = Some p \<and>
             snapshot_kept fuse ms (fst (GetMapWithTimeout s True)) p (heap s ! a)"
proof -
  from assms have "a < length (heap s)"
    by (simp add: wf_state_def valid_ptr_def)
  from makeShared_snapshot [OF assms(1) this, of fuse ms] assms(2) show ?thesis
    by (simp add: GetMapWithTimeout_def makeShared_def)
qed


lemma GetMapWithTimeout_refs_snapshot:
  assumes "wf_state s" and "pPointCloud (this s) = Some a"
  shows "\<exists>p. pCloud (snd (GetMapWithTimeout_refs s out True copyUnstable)) = Some p \<and>
             snapshot_kept fuse ms (fst (GetMapWithTimeout_refs s out True copyUnstable)) p
               (heap s ! a)"
proof -
  from assms have a: "a < length (heap s)"
    by (simp add: wf_state_def valid_ptr_def)
  let ?s1 = "s\<lparr>heap := heap s @ [heap s ! a]\<rparr>"
  have wf1: "wf_state ?s1"
    using assms(1) by (auto simp: wf_state_def valid_ptr_def split: option.splits)
  show ?thesis
  proof (cases "copyUnstable \<and> pPointCloudUnstable (this s) \<noteq> None")
    case False
    with makeShared_snapshot [OF assms(1) a, of fuse ms] assms(2) show ?thesis
      by (auto simp: GetMapWithTimeout_refs_def makeShared_def)
  next
    case True
    then obtain b where b: "pPointCloudUnstable (this s) = Some b" and cu: copyUnstable
      by auto
    let ?s2 = "?s1\<lparr>heap := heap ?s1 @ [heap ?s1 ! b]\<rparr>"
    have "wf_state ?s2"
      using assms(1) by (auto simp: wf_state_def valid_ptr_def split: option.splits)
    moreover have "length (heap s) < length (heap ?s2)"
      by simp
    moreover have "pPointCloud (this ?s2) \<noteq> Some (length (heap s))"
      using assms(1) by (auto simp: wf_state_def valid_ptr_def)
    moreover have "pPointCloudUnstable (this ?s2) \<noteq> Some (length (heap s))"
      using assms(1) by (auto simp: wf_state_def valid_ptr_def)
    ultimately have "snapshot_kept fuse ms ?s2 (length (heap s)) (heap ?s2 ! length (heap s))"
      by (rule mutations_frame)
    then have "snapshot_kept fuse ms ?s2 (length (heap s)) (heap s ! a)"
      by (simp add: nth_append)
    with assms(2) b cu show ?thesis
      by (simp add: GetMapWithTimeout_refs_def makeShared_def)
  qed
qed

lemma GetMapWithTimeout_refs_snapshot_unstable:
  assumes "wf_state s" and "pPointCloudUnstable (this s) = Some b"
  shows "\<exists>q. pCloudUnstable (snd (GetMapWithTimeout_refs s out True True)) = Some q \<and>
             snapshot_kept fuse ms (fst (GetMapWithTimeout_refs s out True True)) q
               (heap s ! b)"
proof -
  from assms have b: "b < length (heap s)"
    by (simp add: wf_state_def valid_ptr_def)
  show ?thesis
  proof (cases "pPointCloud (this s)")
    case None
    with makeShared_snapshot [OF assms(1) b, of fuse ms] assms(2) show ?thesis
      by (simp add: GetMapWithTimeout_refs_def makeShared_def)
  next
    case (Some a)
    let ?s1 = "s\<lparr>heap := heap s @ [heap s ! a]\<rparr>"
    have wf1: "wf_state ?s1"
      using assms(1) by (auto simp: wf_state_def valid_ptr_def split: option.splits)
    have b1: "b < length (heap ?s1)"
      using b by simp
    from makeShared_snapshot [OF wf1 b1, of fuse ms] b
    have "snapshot_kept fuse ms (?s1\<lparr>heap := heap ?s1 @ [heap ?s1 ! b]\<rparr>)
            (length (heap ?s1)) (heap s ! b)"
      by (simp add: nth_append)
    with Some assms(2) show ?thesis
      by (simp add: GetMapWithTimeout_refs_def makeShared_def)
  qed
qed

lemma GetMap_returns_Some:
  "GetMap s = (s1, Some p) \<Longrightarrow> \<exists>a. pPointCloud (this s) = Some a"
  by (cases "pPointCloud (this s)") (simp_all add: GetMap_def)

lemma GetMapWithTimeout_returns_Some:
  "GetMapWithTimeout s owns_lock = (s1, Some p) \<Longrightarrow>
   owns_lock \<and> (\<exists>a. pPointCloud (this s) = Some a)"
  by (cases "pPointCloud (this s)"; cases owns_lock) (simp_all add: GetMapWithTimeout_def)

lemma GetMapWithTimeout_refs_returns_pCloud:
  "pCloud (snd (GetMapWithTimeout_refs s out owns_lock copyUnstable)) = Some p \<Longrightarrow>
   owns_lock \<and> (\<exists>a. pPointCloud (this s) = Some a)"
  by (cases "pPointCloud (this s)"; cases owns_lock)
     (simp_all add: GetMapWithTimeout_refs_def Let_def split: prod.splits option.splits if_splits)

lemma GetMapWithTimeout_refs_returns_pCloudUnstable:
  "pCloudUnstable (snd (GetMapWithTimeout_refs s out True True)) = Some q \<Longrightarrow>
   \<exists>b. pPointCloudUnstable (this s) = Some b"
  by (cases "pPointCloudUnstable (this s)"; cases "pPointCloud (this s)")
     (simp_all add: GetMapWithTimeout_refs_def makeShared_def)

text \<open>
  C2. Every snapshot that \<open>GetMap\<close> or either overload of \<open>GetMapWithTimeout\<close> returns is a
  copy of the stored cloud in a cell of its own: whatever mutations of the map follow
  (merges, \<open>Clear\<close>, resets, overwriting or replacing the stored clouds), the cell holds
  the cloud it was given, and neither pointer member of the map ever points to it.
\<close>

theorem snapshot_isolation:
  assumes "wf_state s"
  shows
    "(GetMap s = (s1, Some p) \<longrightarrow>
        (\<exists>a. pPointCloud (this s) = Some a \<and> snapshot_kept fuse ms s1 p (heap s ! a))) \<and>
     (GetMapWithTimeout s owns_lock = (s2, Some p') \<longrightarrow>
        (\<exists>a. pPointCloud (this s) = Some a \<and> snapshot_kept fuse ms s2 p' (heap s ! a))) \<and>
     (GetMapWithTimeout_refs s out owns_lock copyUnstable = (s3, out') \<longrightarrow>
        (\<forall>q. pCloud out' = Some q \<longrightarrow>
           (\<exists>a. pPointCloud (this s) = Some a \<and> snapshot_kept fuse ms s3 q (heap s ! a))) \<and>
        (\<forall>q. owns_lock \<and> copyUnstable \<and> pCloudUnstable out' = Some q \<longrightarrow>
           (\<exists>b. pPointCloudUnstable (this s) = Some b \<and>
                snapshot_kept fuse ms s3 q (heap s ! b))))"
proof (intro conjI impI allI)
  assume g: "GetMap s = (s1, Some p)"
  then obtain a where a: "pPointCloud (this s) = Some a"
    by (blast dest: GetMap_returns_Some)
  from GetMap_snapshot [OF assms a, of fuse ms] g a
  show "\<exists>a. pPointCloud (this s) = Some a \<and> snapshot_kept fuse ms s1 p (heap s ! a)"
    by simp
next
  assume g: "GetMapWithTimeout s owns_lock = (s2, Some p')"
  then obtain a where a: "pPointCloud (this s) = Some a" and owns_lock
    by (blast dest: GetMapWithTimeout_returns_Some)
  from GetMapWithTimeout_snapshot [OF assms a, of fuse ms] g a \<open>owns_lock\<close>
  show "\<exists>a. pPointCloud (this s) = Some a \<and> snapshot_kept fuse ms s2 p' (heap s ! a)"
    by simp
next
  fix q
  assume g: "GetMapWithTimeout_refs s out owns_lock copyUnstable = (s3, out')"
    and q: "pCloud out' = Some q"
  from g q have "pCloud (snd (GetMapWithTimeout_refs s out owns_lock copyUnstable)) = Some q"
    by simp
  then obtain a where a: "pPointCloud (this s) = Some a" and owns_lock
    by (blast dest: GetMapWithTimeout_refs_returns_pCloud)
  from GetMapWithTimeout_refs_snapshot [OF assms a, of out copyUnstable fuse ms] g q a
    \<open>owns_lock\<close>
  show "\<exists>a. pPointCloud (this s) = Some a \<and> snapshot_kept fuse ms s3 q (heap s ! a)"
    by simp
next
  fix q
  assume g: "GetMapWithTimeout_refs s out owns_lock copyUnstable = (s3, out')"
    and q: "owns_lock \<and> copyUnstable \<and> pCloudUnstable out' = Some q"
  from g q have "pCloudUnstable (snd (GetMapWithTimeout_refs s out True True)) = Some q"
    by simp
  then obtain b where b: "pPointCloudUnstable (this s) = Some b"
    by (blast dest: GetMapWithTimeout_refs_returns_pCloudUnstable)
  from GetMapWithTimeout_refs_snapshot_unstable [OF assms b, of out fuse ms] g q b
  show "\<exists>b. pPointCloudUnstable (this s) = Some b \<and> snapshot_kept fuse ms s3 q (heap s ! b)"
    by simp
qed

theorem snapshot_isolation_witness:
  "wf_state example_state \<and>
   GetMap example_state = (example_state_copy, Some 2) \<and>
   GetMapWithTimeout example_state True = (example_state_copy, Some 2) \<and>
   GetMapWithTimeout_refs example_state example_outputs True True =
     (example_state_copies, \<lparr>pCloud = Some 2, pCloudUnstable = Some 3, faces = []\<rparr>) \<and>
   snapshot_kept example_fuse example_mutations example_state_copy 2
     \<lparr>header_stamp = 7, points = [10, 20, 30]\<rparr> \<and>
   snapshot_kept example_fuse example_mutations example_state_copies 2
     \<lparr>header_stamp = 7, points = [10, 20, 30]\<rparr> \<and>
   snapshot_kept example_fuse example_mutations example_state_copies 3
     \<lparr>header_stamp = 0, points = [40]\<rparr>"
proof -
  have w: "wf_state example_state"
    by (simp add: wf_state_def valid_ptr_def example_state_def example_map_def)
  have g1: "GetMap example_state = (example_state_copy, Some 2)"
    by (simp add: GetMap_def makeShared_def example_state_def example_state_copy_def
          example_map_def)
  have g2: "GetMapWithTimeout example_state True = (example_state_copy, Some 2)"
    by (simp add: GetMapWithTimeout_def makeShared_def example_state_def
          example_state_copy_def example_map_def)
  have g3: "GetMapWithTimeout_refs example_state example_outputs True True =
              (example_state_copies, \<lparr>pCloud = Some 2, pCloudUnstable = Some 3, faces = []\<rparr>)"
    by (simp add: GetMapWithTimeout_refs_def makeShared_def example_state_def
          example_state_copies_def example_outputs_def example_map_def)
  have a: "pPointCloud (this example_state) = Some 0"
    and b: "pPointCloudUnstable (this example_state) = Some 1"
    by (simp_all add: example_state_def example_map_def)
  have c: "heap example_state ! 0 = \<lparr>header_stamp = 7, points = [10, 20, 30]\<rparr>"
    and d: "heap example_state ! 1 = \<lparr>header_stamp = 0, points = [40]\<rparr>"
    by (simp_all add: example_state_def)
  from snapshot_isolation
         [OF w, where ?s1.0 = example_state_copy and p = 2 and owns_lock = True
            and ?s2.0 = example_state_copy and p' = 2 and out = example_outputs
            and copyUnstable = True and ?s3.0 = example_state_copies
            and out' = "\<lparr>pCloud = Some 2, pCloudUnstable = Some 3, faces = []\<rparr>"
            and fuse = example_fuse and ms = example_mutations]
       w g1 g2 g3 a b c d
  show ?thesis by simp
qed

end
